theory Spec2Isabelle
  imports Complex_Main
begin

section \<open>Ride Now: the ride-request flow and its real-time delivery\<close>

text \<open>
  The repository has one source file holding two programs: the React component \<open>App\<close>
  (the request form) and the Express/Socket.IO backend. Both are event driven. Each
  handler is embedded as a function from the state before the handler runs to the state
  after it; what the environment decides (the wall clock, the draws of \<open>Math.random\<close>,
  whether and when the database acknowledges a write) is an argument of the handler.
  A handler runs to its end in one step: its \<open>await\<close>s are not points where the model
  lets another handler in.

  Embedded from the backend: the ride schema, \<open>POST /api/rides/request\<close> with its
  \<open>setTimeout\<close> callback, \<open>GET /api/rides/:id\<close>, and the Socket.IO handlers that
  change room membership. The root, register and login routes, and the handlers that only
  log (\<open>driverLocationUpdate\<close>), touch nothing the ride flow reads and are left out; the
  \<open>User\<close> collection is a fixed part of the state. Embedded from the front end: the state
  of \<open>App\<close> and its handlers \<open>handleRequestRide\<close> and \<open>handleNewRide\<close>.
\<close>

subsection \<open>Values\<close>

text \<open>
  An ObjectId is the number its twelve bytes spell. A \<open>Date\<close> is a number of
  milliseconds. Sockets are named by their id, HTTP requests (the pair \<open>req\<close>, \<open>res\<close>)
  by a number.
\<close>

type_synonym objectId = nat
type_synonym time = nat
type_synonym socket_id = string
type_synonym req_id = nat

text \<open>Template literal \<open>`${n}`\<close> of a non-negative whole number: its decimal numeral.\<close>

definition digit :: "nat \<Rightarrow> char" where
  "digit d = ''0123456789'' ! d"

fun showNat :: "nat \<Rightarrow> string" where
  "showNat n = (if n < 10 then [digit n] else showNat (n div 10) @ [digit (n mod 10)])"

declare showNat.simps [simp del]

text \<open>
  The paths \<open>riderId\<close> and \<open>driverId\<close> of the ride schema and the \<open>_id\<close> that
  \<open>findById\<close> looks for have type \<open>ObjectId\<close>: mongoose casts a string to it when the
  string is 24 hexadecimal digits, in either letter case, and fails with a cast error
  otherwise.
\<close>

definition hexDigit :: "char \<Rightarrow> nat option" where
  "hexDigit c = map_of
     [(CHR ''0'', 0), (CHR ''1'', 1), (CHR ''2'', 2), (CHR ''3'', 3), (CHR ''4'', 4),
      (CHR ''5'', 5), (CHR ''6'', 6), (CHR ''7'', 7), (CHR ''8'', 8), (CHR ''9'', 9),
      (CHR ''a'', 10), (CHR ''b'', 11), (CHR ''c'', 12), (CHR ''d'', 13), (CHR ''e'', 14),
      (CHR ''f'', 15), (CHR ''A'', 10), (CHR ''B'', 11), (CHR ''C'', 12), (CHR ''D'', 13),
      (CHR ''E'', 14), (CHR ''F'', 15)] c"

fun parseHex :: "nat \<Rightarrow> string \<Rightarrow> nat option" where
  "parseHex acc [] = Some acc"
| "parseHex acc (c # cs) =
     (case hexDigit c of None \<Rightarrow> None | Some d \<Rightarrow> parseHex (16 * acc + d) cs)"

definition castObjectId :: "string \<Rightarrow> objectId option" where
  "castObjectId s = (if length s = 24 then parseHex 0 s else None)"

text \<open>\<open>!v\<close> for a field of the request body that is absent or a string.\<close>

definition falsy :: "string option \<Rightarrow> bool" where
  "falsy v = (case v of None \<Rightarrow> True | Some s \<Rightarrow> s = [])"

definition str :: "string option \<Rightarrow> string" where
  "str v = (case v of None \<Rightarrow> [] | Some s \<Rightarrow> s)"

subsection \<open>Numbers\<close>

text \<open>
  A JavaScript number is an IEEE 754 binary64 value, here the rational it denotes, and
  every arithmetic operation returns the binary64 value nearest to the exact result, ties
  to the even significand. \<open>expo x\<close> is the exponent of the binade of \<open>x\<close> (\<open>-1022\<close>
  for a subnormal), \<open>ulp x\<close> the distance between neighbouring binary64 values there,
  \<open>fl x\<close> the rounded value. Magnitudes of \<open>2^1024\<close> and more (which round to
  \<open>Infinity\<close>) do not occur in this program.
\<close>

fun expo_search :: "nat \<Rightarrow> rat \<Rightarrow> int" where
  "expo_search 0 a = - 1022"
| "expo_search (Suc n) a =
     (if 2 powi (int (Suc n) - 1022) \<le> a then int (Suc n) - 1022 else expo_search n a)"

definition expo :: "rat \<Rightarrow> int" where
  "expo x = expo_search 2045 \<bar>x\<bar>"

definition ulp :: "rat \<Rightarrow> rat" where
  "ulp x = 2 powi (expo x - 52)"

text \<open>The nearest integer, ties to even.\<close>

definition rne :: "rat \<Rightarrow> int" where
  "rne y = (let f = \<lfloor>y\<rfloor>; d = y - of_int f
            in if d < 1 / 2 then f else if 1 / 2 < d then f + 1
               else if even f then f else f + 1)"

definition fl :: "rat \<Rightarrow> rat" where
  "fl x = of_int (rne (x / ulp x)) * ulp x"

subsection \<open>Schemas\<close>

datatype role = rider | driver

record user =
  username :: string
  password :: string
  email :: string
  user_role :: role
  user_createdAt :: time

datatype ride_status = pending | searching | accepted | on_the_way | completed | cancelled

text \<open>
  \<open>rideSchema\<close>; \<open>ride_id\<close> is the path \<open>_id\<close>. The two references to \<open>User\<close> have
  type \<open>'ref\<close>: an \<open>objectId\<close> in a stored document, the referenced user (or null) in a
  populated one.
\<close>

record 'ref ride =
  ride_id :: objectId
  riderId :: 'ref
  driverId :: "'ref option"
  pickupLocation :: string
  destination :: string
  status :: ride_status
  fare :: "rat option"
  estimatedArrivalTime :: "string option"
  pickupTime :: "time option"
  createdAt :: time
  updatedAt :: time

text \<open>
  \<open>new Ride({riderId, pickupLocation, destination, status: 'searching'})\<close> at time \<open>now\<close>,
  for a \<open>riderId\<close> that casts to \<open>r\<close>: the schema defaults fill \<open>createdAt\<close> and
  \<open>updatedAt\<close>, the other paths stay unset.
\<close>

definition newRideDoc :: "objectId \<Rightarrow> time \<Rightarrow> objectId \<Rightarrow> string \<Rightarrow> string \<Rightarrow> objectId ride" where
  "newRideDoc i now r p d =
     \<lparr>ride_id = i, riderId = r, driverId = None, pickupLocation = p, destination = d,
      status = searching, fare = None, estimatedArrivalTime = None, pickupTime = None,
      createdAt = now, updatedAt = now\<rparr>"

text \<open>\<open>.populate('riderId').populate('driverId')\<close>: a reference with no user becomes null.\<close>

definition populate :: "(objectId \<rightharpoonup> user) \<Rightarrow> objectId ride \<Rightarrow> (user option) ride" where
  "populate us r =
     \<lparr>ride_id = ride_id r, riderId = us (riderId r), driverId = map_option us (driverId r),
      pickupLocation = pickupLocation r, destination = destination r, status = status r,
      fare = fare r, estimatedArrivalTime = estimatedArrivalTime r,
      pickupTime = pickupTime r, createdAt = createdAt r, updatedAt = updatedAt r\<rparr>"

subsection \<open>Messages\<close>

text \<open>
  The object the match callback builds twice, once for \<open>emit('rideUpdate', ...)\<close> and
  once for \<open>res.status(200).json(...)\<close>: the same eight keys. \<open>msg_pickupTime\<close> stands
  for \<open>pickupTime.toLocaleTimeString()\<close>, kept as the instant it renders.
\<close>

record ride_msg =
  msg_rideId :: objectId
  msg_status :: ride_status
  msg_driverName :: string
  msg_driverVehicle :: string
  msg_estimatedArrivalTime :: "string option"
  msg_fare :: "rat option"
  msg_pickupTime :: "time option"
  msg_message :: string

datatype json = Message string | RideMsg ride_msg | RideDoc "(user option) ride"

datatype response = Response (http_status: nat) (body: json)

subsection \<open>The server\<close>

text \<open>
  What a pending \<open>setTimeout\<close> callback holds: the variables of the request handler it
  closes over (\<open>newRide\<close>, the \<open>riderId\<close> of the request body as sent, \<open>res\<close>) and the
  time from which it may run.
\<close>

record job =
  job_ride :: "objectId ride"
  job_riderId :: string
  job_res :: req_id
  job_due :: time

text \<open>
  \<open>users\<close>, \<open>rides\<close>: the two collections, keyed by \<open>_id\<close>. \<open>oidCounter\<close>: identifiers
  generated so far. \<open>timers\<close>: pending callbacks. \<open>sockets\<close>: connected sockets;
  \<open>rooms s\<close>: the rooms socket \<open>s\<close> is in. \<open>inbox s\<close>: the \<open>rideUpdate\<close> events
  delivered to \<open>s\<close>. \<open>responses\<close>: HTTP responses sent, by request. \<open>unhandled\<close>:
  rejections that no handler caught.
\<close>

record world =
  users :: "objectId \<rightharpoonup> user"
  rides :: "objectId \<rightharpoonup> objectId ride"
  oidCounter :: nat
  timers :: "job list"
  sockets :: "socket_id set"
  rooms :: "socket_id \<Rightarrow> string set"
  inbox :: "socket_id \<Rightarrow> ride_msg list"
  responses :: "(req_id \<times> response) list"
  unhandled :: nat

definition init :: "(objectId \<rightharpoonup> user) \<Rightarrow> world" where
  "init us =
     \<lparr>users = us, rides = Map.empty, oidCounter = 0, timers = [], sockets = {},
      rooms = (\<lambda>s. {}), inbox = (\<lambda>s. []), responses = [], unhandled = 0\<rparr>"

text \<open>
  \<open>res.status(code).json(b)\<close> on the response object of request \<open>rq\<close>. Express
  throws when a response object is answered a second time. That does not arise here: a
  handler answers the response object of its own request, the callback the one its
  request handed over unanswered, and in a run whose requests are named by different
  numbers no request is answered twice (\<open>answered_once\<close> below).
\<close>

definition respond :: "world \<Rightarrow> req_id \<Rightarrow> nat \<Rightarrow> json \<Rightarrow> world" where
  "respond w rq code b = w\<lparr>responses := responses w @ [(rq, Response code b)]\<rparr>"

text \<open>\<open>io.to(room).emit('rideUpdate', m)\<close>: every socket in the room receives \<open>m\<close>.\<close>

definition emit :: "world \<Rightarrow> string \<Rightarrow> ride_msg \<Rightarrow> world" where
  "emit w room m =
     w\<lparr>inbox := (\<lambda>s. if room \<in> rooms w s then inbox w s @ [m] else inbox w s)\<rparr>"

text \<open>\<open>await doc.save()\<close> when the database accepts the write.\<close>

definition save :: "world \<Rightarrow> objectId ride \<Rightarrow> world" where
  "save w r = w\<lparr>rides := (rides w)(ride_id r \<mapsto> r)\<rparr>"

text \<open>
  Modelled from the spec: the generator of identifiers, which gives a new document its
  \<open>_id\<close> and \<open>new mongoose.Types.ObjectId()\<close> its value; it is code of the bson package
  and not in the repository. The spec calls a ride's identifier ``opaque'', ``unique''
  and ``freshly generated'' at creation: the generator never returns a value twice. Here
  the \<open>c\<close>-th identifier it returns is \<open>c\<close>.
\<close>

definition newObjectId :: "nat \<Rightarrow> objectId" where
  "newObjectId c = c"

subsection \<open>The reference matching provider\<close>

text \<open>
  \<open>x.toFixed(2)\<close>: the decimal with two fraction digits nearest to the exact value of
  \<open>x\<close>, the larger one on a tie. \<open>parseFloat\<close> reads it back as a number.
\<close>

definition toFixed2 :: "rat \<Rightarrow> rat" where
  "toFixed2 x = of_int \<lfloor>x * 100 + 1 / 2\<rfloor> / 100"

text \<open>\<open>parseFloat((Math.random() * 20 + 10).toFixed(2))\<close>, for the draw \<open>u\<close>.\<close>

definition mockFare :: "rat \<Rightarrow> rat" where
  "mockFare u = fl (toFixed2 (fl (fl (u * 20) + 10)))"

text \<open>
  \<open>Math.floor(Math.random() * 5) + 2\<close> and the text built around it; the sum of two
  small whole numbers is exact.
\<close>

definition etaMinutes :: "rat \<Rightarrow> nat" where
  "etaMinutes u = nat \<lfloor>fl (u * 5)\<rfloor> + 2"

definition mockEta :: "rat \<Rightarrow> string" where
  "mockEta u = showNat (etaMinutes u) @ '' minutes''"

subsection \<open>Handlers\<close>

record ride_request =
  req_riderId :: "string option"
  req_pickupLocation :: "string option"
  req_destination :: "string option"

text \<open>
  The five assignments of the match callback (\<open>newRide.driverId = ...\<close> to
  \<open>newRide.pickupTime = new Date()\<close>).
\<close>

definition applyMatch :: "objectId ride \<Rightarrow> objectId \<Rightarrow> rat \<Rightarrow> string \<Rightarrow> time \<Rightarrow> objectId ride" where
  "applyMatch r d f e now =
     r\<lparr>driverId := Some d, fare := Some f, estimatedArrivalTime := Some e,
       status := accepted, pickupTime := Some now\<rparr>"

definition rideMsg :: "objectId ride \<Rightarrow> string \<Rightarrow> ride_msg" where
  "rideMsg r m =
     \<lparr>msg_rideId = ride_id r, msg_status = status r, msg_driverName = ''Alice Smith'',
      msg_driverVehicle = ''Toyota Camry (ABC-123)'',
      msg_estimatedArrivalTime = estimatedArrivalTime r, msg_fare = fare r,
      msg_pickupTime = pickupTime r, msg_message = m\<rparr>"

text \<open>
  The callback given to \<open>setTimeout\<close>, run at time \<open>now\<close> with the draws \<open>u1\<close>, \<open>u2\<close>;
  \<open>saved\<close> tells whether the database accepts the write. When \<open>save\<close> rejects, the
  callback ends there: nothing is emitted and no response is sent.
\<close>

definition matchCallback :: "world \<Rightarrow> job \<Rightarrow> time \<Rightarrow> rat \<Rightarrow> rat \<Rightarrow> bool \<Rightarrow> world" where
  "matchCallback w j now u1 u2 saved =
     (let mockDriver = newObjectId (oidCounter w);
          w1 = w\<lparr>oidCounter := Suc (oidCounter w)\<rparr>;
          newRide = applyMatch (job_ride j) mockDriver (mockFare u1) (mockEta u2) now
      in if \<not> saved then w1\<lparr>unhandled := Suc (unhandled w1)\<rparr>
         else
           let w2 = save w1 newRide;
               w3 = emit w2 (job_riderId j) (rideMsg newRide ''Driver found!'')
           in respond w3 (job_res j) 200
                (RideMsg (rideMsg newRide
                   ''Ride request received and driver searching initiated.'')))"

text \<open>
  \<open>app.post('/api/rides/request')\<close>, for request \<open>rq\<close> with body \<open>b\<close> at time \<open>now\<close>.
  \<open>new Ride\<close> generates the \<open>_id\<close>. \<open>await newRide.save()\<close> rejects when \<open>riderId\<close>
  does not cast to an ObjectId (the document fails validation) or when the database
  refuses the write (\<open>saved = None\<close>); otherwise it returns at time \<open>t\<close>
  (\<open>saved = Some t\<close>), and the timer is set then.
\<close>

definition requestRide :: "world \<Rightarrow> req_id \<Rightarrow> ride_request \<Rightarrow> time \<Rightarrow> time option \<Rightarrow> world" where
  "requestRide w rq b now saved =
     (if falsy (req_riderId b) \<or> falsy (req_pickupLocation b) \<or> falsy (req_destination b)
      then respond w rq 400 (Message ''Missing required ride details.'')
      else
        let w1 = w\<lparr>oidCounter := Suc (oidCounter w)\<rparr>
        in case (castObjectId (str (req_riderId b)), saved) of
             (Some r, Some t) \<Rightarrow>
               let newRide = newRideDoc (newObjectId (oidCounter w)) now r
                               (str (req_pickupLocation b)) (str (req_destination b));
                   w2 = save w1 newRide
               in w2\<lparr>timers := timers w2 @
                        [\<lparr>job_ride = newRide, job_riderId = str (req_riderId b),
                          job_res = rq, job_due = t + 3000\<rparr>]\<rparr>
           | _ \<Rightarrow> respond w1 rq 500 (Message ''Failed to request ride''))"

text \<open>
  \<open>app.get('/api/rides/:id')\<close>. \<open>findById\<close> throws when the identifier does not cast to
  an ObjectId, and when the database fails (\<open>db_ok\<close> false); the handler catches both.
\<close>

definition getRide :: "world \<Rightarrow> req_id \<Rightarrow> string \<Rightarrow> bool \<Rightarrow> world" where
  "getRide w rq ident db_ok =
     (case castObjectId ident of
        None \<Rightarrow> respond w rq 500 (Message ''Failed to fetch ride status'')
      | Some i \<Rightarrow>
          if \<not> db_ok then respond w rq 500 (Message ''Failed to fetch ride status'')
          else case rides w i of
                 None \<Rightarrow> respond w rq 404 (Message ''Ride not found'')
               | Some r \<Rightarrow> respond w rq 200 (RideDoc (populate (users w) r)))"

text \<open>
  \<open>io.on('connection')\<close>, \<open>socket.on('joinRideRoom')\<close> and \<open>socket.on('disconnect')\<close>.
  Socket.IO puts a new socket in the room named by its own id and takes a disconnected
  socket out of every room; the handlers of the source add \<open>socket.join(userId)\<close>.
\<close>

definition connect :: "world \<Rightarrow> socket_id \<Rightarrow> world" where
  "connect w s = w\<lparr>sockets := insert s (sockets w), rooms := (rooms w)(s := {s})\<rparr>"

definition joinRideRoom :: "world \<Rightarrow> socket_id \<Rightarrow> string \<Rightarrow> world" where
  "joinRideRoom w s userId =
     (if s \<in> sockets w then w\<lparr>rooms := (rooms w)(s := insert userId (rooms w s))\<rparr> else w)"

definition disconnect :: "world \<Rightarrow> socket_id \<Rightarrow> world" where
  "disconnect w s = w\<lparr>sockets := sockets w - {s}, rooms := (rooms w)(s := {})\<rparr>"

subsection \<open>Runs\<close>

text \<open>
  What can happen to the server. \<open>TimerFires k\<close> runs the \<open>k\<close>-th pending callback, which
  the event loop does only once its delay has passed.
\<close>

datatype event =
    PostRideRequest req_id ride_request time "time option"
  | TimerFires nat time rat rat bool
  | GetRide req_id string bool
  | Connect socket_id
  | JoinRideRoom socket_id string
  | Disconnect socket_id

fun step :: "world \<Rightarrow> event \<Rightarrow> world" where
  "step w (PostRideRequest rq b now saved) = requestRide w rq b now saved"
| "step w (TimerFires k now u1 u2 saved) =
     (if k < length (timers w) \<and> job_due (timers w ! k) \<le> now
      then matchCallback (w\<lparr>timers := take k (timers w) @ drop (Suc k) (timers w)\<rparr>)
             (timers w ! k) now u1 u2 saved
      else w)"
| "step w (GetRide rq ident db_ok) = getRide w rq ident db_ok"
| "step w (Connect s) = connect w s"
| "step w (JoinRideRoom s userId) = joinRideRoom w s userId"
| "step w (Disconnect s) = disconnect w s"

definition run :: "world \<Rightarrow> event list \<Rightarrow> world" where
  "run w evs = foldl step w evs"

text \<open>The HTTP requests of a run, by the number that names each.\<close>

fun request_of :: "event \<Rightarrow> req_id list" where
  "request_of (PostRideRequest rq b now saved) = [rq]"
| "request_of (GetRide rq ident db_ok) = [rq]"
| "request_of e = []"

definition requests :: "event list \<Rightarrow> req_id list" where
  "requests evs = concat (map request_of evs)"

subsection \<open>Invariants of a run\<close>

text \<open>
  Every stored ride sits under its own identifier, that identifier came from the
  generator, and the ride is in \<open>searching\<close> or \<open>accepted\<close>.
\<close>

definition rides_ok :: "world \<Rightarrow> bool" where
  "rides_ok w \<longleftrightarrow>
     (\<forall>i r. rides w i = Some r \<longrightarrow>
        ride_id r = i \<and> (\<exists>c<oidCounter w. i = newObjectId c) \<and>
        (status r = searching \<or> status r = accepted))"

text \<open>
  Every pending callback holds the stored copy of its ride, still in \<open>searching\<close>, and
  the \<open>riderId\<close> text that cast to the ride's rider; no two pending callbacks hold the
  same ride.
\<close>

definition timers_ok :: "world \<Rightarrow> bool" where
  "timers_ok w \<longleftrightarrow>
     (\<forall>j\<in>set (timers w).
        rides w (ride_id (job_ride j)) = Some (job_ride j) \<and>
        status (job_ride j) = searching \<and>
        castObjectId (job_riderId j) = Some (riderId (job_ride j))) \<and>
     distinct (map (\<lambda>j. ride_id (job_ride j)) (timers w))"

definition invariant :: "world \<Rightarrow> bool" where
  "invariant w \<longleftrightarrow> rides_ok w \<and> timers_ok w"

text \<open>
  The requests that have been answered or whose answer a pending callback holds, each
  once.
\<close>

definition in_hand :: "world \<Rightarrow> req_id list" where
  "in_hand w = map fst (responses w) @ map job_res (timers w)"

text \<open>
  The server without its log of HTTP responses. No handler reads the log, so two servers
  that differ only there stay so (\<open>forget_run\<close> below).
\<close>

definition forget_responses :: "world \<Rightarrow> world" where
  "forget_responses w = w\<lparr>responses := []\<rparr>"

subsection \<open>The request form\<close>

text \<open>The object \<open>mockRideData\<close>.\<close>

record ride_details =
  rd_driverName :: string
  rd_driverVehicle :: string
  rd_estimatedArrivalTime :: string
  rd_fare :: string
  rd_pickupTime :: time
  rd_status :: string

text \<open>
  The six \<open>useState\<close> cells of \<open>App\<close>; \<open>ui_pickupLocation\<close> and \<open>ui_destination\<close>
  are its \<open>pickupLocation\<close> and \<open>destination\<close>, names the ride schema has too.
\<close>

record app =
  ui_pickupLocation :: string
  ui_destination :: string
  isRequesting :: bool
  driverFound :: bool
  rideDetails :: "ride_details option"
  error :: string

text \<open>
  \<open>handleRequestRide\<close> up to its \<open>await\<close>: the state it leaves, and whether it has
  started the three-second wait.
\<close>

definition handleRequestRide :: "app \<Rightarrow> app \<times> bool" where
  "handleRequestRide a =
     (if ui_pickupLocation a = [] \<or> ui_destination a = []
      then (a\<lparr>error := ''Please enter both pickup location and destination.''\<rparr>, False)
      else (a\<lparr>error := [], isRequesting := True, driverFound := False,
              rideDetails := None\<rparr>, True))"

text \<open>\<open>handleRequestRide\<close> from the end of the wait, at time \<open>now\<close>.\<close>

definition handleRequestRide_resume :: "app \<Rightarrow> time \<Rightarrow> app" where
  "handleRequestRide_resume a now =
     a\<lparr>rideDetails := Some \<lparr>rd_driverName = ''Alice Smith'',
                            rd_driverVehicle = ''Toyota Camry (ABC-123)'',
                            rd_estimatedArrivalTime = ''3 minutes'', rd_fare = ''$15.50'',
                            rd_pickupTime = now, rd_status = ''Driver on the way''\<rparr>,
       driverFound := True, isRequesting := False\<rparr>"

definition handleNewRide :: "app \<Rightarrow> app" where
  "handleNewRide a =
     a\<lparr>ui_pickupLocation := [], ui_destination := [], isRequesting := False,
       driverFound := False, rideDetails := None, error := []\<rparr>"

subsection \<open>Scenarios\<close>

text \<open>
  Concrete inputs on which the facts below are evaluated. Rider \<open>a\<close> is the user whose
  \<open>_id\<close> is the ObjectId \<open>00000000000000000000000a\<close>, the number 10. The request
  \<open>{riderId: "00000000000000000000000a", pickupLocation: "A", destination: "B"}\<close>
  arrives at time 1000 on a fresh server and its write is acknowledged at time 1020; its
  callback runs at time 4020 with both draws \<open>1/2\<close>.
\<close>

definition rider_a :: string where
  "rider_a = ''00000000000000000000000a''"

definition scenario1 :: ride_request where
  "scenario1 =
     \<lparr>req_riderId = Some rider_a, req_pickupLocation = Some ''A'', req_destination = Some ''B''\<rparr>"

definition requested :: world where
  "requested = step (init Map.empty) (PostRideRequest 1 scenario1 1000 (Some 1020))"

definition matched :: world where
  "matched = step requested (TimerFires 0 4020 (1 / 2) (1 / 2) True)"

text \<open>The same, but the database refuses the callback's write.\<close>

definition stuck :: world where
  "stuck = step requested (TimerFires 0 4020 (1 / 2) (1 / 2) False)"


text \<open>
  Socket \<open>s1\<close> has joined the room of rider \<open>a\<close> as above, socket \<open>s2\<close> the room named
  by the same identifier in capitals, and the request spells \<open>riderId\<close> in capitals.
\<close>

definition rider_A :: string where
  "rider_A = ''00000000000000000000000A''"


text \<open>The request of the first scenario with the rider named \<open>u1\<close>.\<close>

definition scenario_u1 :: ride_request where
  "scenario_u1 = scenario1\<lparr>req_riderId := Some ''u1''\<rparr>"

text \<open>The event the callback emits in these scenarios.\<close>

definition driver_found :: ride_msg where
  "driver_found =
     \<lparr>msg_rideId = 0, msg_status = accepted, msg_driverName = ''Alice Smith'',
      msg_driverVehicle = ''Toyota Camry (ABC-123)'',
      msg_estimatedArrivalTime = Some ''4 minutes'', msg_fare = Some 20,
      msg_pickupTime = Some 4020, msg_message = ''Driver found!''\<rparr>"

text \<open>
  The binary64 value nearest to 0.6, which is a little less than 0.6: a draw on which
  rounding decides the result.
\<close>

definition draw06 :: rat where
  "draw06 = 5404319552844595 / 2 ^ 53"

text \<open>A draw near 0.50075, on which rounding decides the cent of the fare.\<close>

definition draw5 :: rat where
  "draw5 = 4510355026811551 / 2 ^ 53"

section \<open>Facts about the model\<close>

subsection \<open>Rounding to binary64\<close>

lemma expo_search_bounds: "- 1022 \<le> expo_search n a \<and> expo_search n a \<le> int n - 1022"
  by (induction n) auto

lemma expo_search_le: "- 1022 < expo_search n a \<Longrightarrow> 2 powi (expo_search n a) \<le> a"
  by (induction n) (auto split: if_splits)

lemma expo_search_max:
  "- 1022 \<le> e \<Longrightarrow> e \<le> int n - 1022 \<Longrightarrow> 2 powi e \<le> a \<Longrightarrow> e \<le> expo_search n a"
proof (induction n)
  case 0
  then show ?case by simp
next
  case (Suc n)
  show ?case
  proof (cases "2 powi (int (Suc n) - 1022) \<le> a")
    case True
    with Suc.prems show ?thesis by simp
  next
    case False
    with Suc.prems have "e \<noteq> int (Suc n) - 1022" by auto
    with Suc.prems have "e \<le> int n - 1022" by simp
    with Suc False show ?thesis by simp
  qed
qed

lemma expo_upper:
  assumes "\<bar>x\<bar> < 2 powi (E + 1)" "- 1022 \<le> E"
  shows "expo x \<le> E"
proof (rule ccontr)
  assume "\<not> expo x \<le> E"
  then have gt: "E + 1 \<le> expo x" by simp
  with assms(2) have "- 1022 < expo_search 2045 \<bar>x\<bar>" by (simp add: expo_def)
  then have "2 powi (expo x) \<le> \<bar>x\<bar>" unfolding expo_def by (rule expo_search_le)
  moreover from gt have "(2::rat) powi (E + 1) \<le> 2 powi (expo x)"
    by (intro power_int_increasing) simp_all
  ultimately show False using assms(1) by simp
qed

lemma expo_eq:
  assumes "2 powi e \<le> \<bar>x\<bar>" "\<bar>x\<bar> < 2 powi (e + 1)" "- 1022 \<le> e" "e \<le> 1023"
  shows "expo x = e"
proof -
  have "e \<le> expo x" unfolding expo_def using assms by (intro expo_search_max) simp_all
  moreover have "expo x \<le> e" using assms by (intro expo_upper) simp_all
  ultimately show ?thesis by simp
qed

lemma ulp_pos: "0 < ulp x"
  by (simp add: ulp_def)

lemma rne_le: "y \<le> of_int z \<Longrightarrow> rne y \<le> z"
proof -
  assume le: "y \<le> of_int z"
  show ?thesis
  proof (cases "y = of_int z")
    case True
    then show ?thesis by (simp add: rne_def)
  next
    case False
    with le have "y < of_int z" by simp
    then have "\<lfloor>y\<rfloor> < z" by (simp add: floor_less_iff)
    then show ?thesis by (simp add: rne_def Let_def)
  qed
qed

lemma rne_ge: "of_int z \<le> y \<Longrightarrow> z \<le> rne y"
proof -
  assume "of_int z \<le> y"
  then have "z \<le> \<lfloor>y\<rfloor>" by (simp add: le_floor_iff)
  then show ?thesis by (simp add: rne_def Let_def)
qed

text \<open>Rounding never crosses a number of the grid around \<open>x\<close>.\<close>

lemma fl_le_grid: "x \<le> of_int z * ulp x \<Longrightarrow> fl x \<le> of_int z * ulp x"
proof -
  assume "x \<le> of_int z * ulp x"
  then have "x / ulp x \<le> of_int z" using ulp_pos [of x] by (simp add: pos_divide_le_eq)
  then have "rne (x / ulp x) \<le> z" by (rule rne_le)
  then have "(of_int (rne (x / ulp x)) :: rat) \<le> of_int z" by simp
  then show ?thesis unfolding fl_def using ulp_pos [of x] by (simp add: mult_right_mono)
qed

lemma fl_ge_grid: "of_int z * ulp x \<le> x \<Longrightarrow> of_int z * ulp x \<le> fl x"
proof -
  assume "of_int z * ulp x \<le> x"
  then have "of_int z \<le> x / ulp x" using ulp_pos [of x] by (simp add: pos_le_divide_eq)
  then have "z \<le> rne (x / ulp x)" by (rule rne_ge)
  then have "(of_int z :: rat) \<le> of_int (rne (x / ulp x))" by simp
  then show ?thesis unfolding fl_def using ulp_pos [of x] by (simp add: mult_right_mono)
qed

text \<open>
  Below 32 the grid is at least as fine as \<open>2^-48\<close>, so it contains every multiple of
  \<open>2^-48\<close>: rounding crosses none of them and leaves each of them as it is.
\<close>

lemma ulp_below_32:
  assumes "\<bar>x\<bar> < 32"
  shows "\<exists>n. ulp x * 2 ^ n = 1 / 2 ^ 48"
proof -
  from assms have "\<bar>x\<bar> < 2 powi (4 + 1)" by simp
  then have e: "expo x \<le> 4" by (rule expo_upper) simp
  define n where "n = nat (4 - expo x)"
  with e have "expo x - 52 = - 48 - int n" by simp
  then have "ulp x = 2 powi (- 48 - int n)" by (simp add: ulp_def)
  also have "\<dots> = 2 powi (- 48) / 2 powi (int n)" by (simp add: power_int_diff)
  finally have "ulp x * 2 ^ n = 2 powi (- 48)" by simp
  then show ?thesis by (auto simp: power_int_minus field_simps)
qed

lemma grid_below_32:
  assumes "\<bar>x\<bar> < 32"
  shows "\<exists>z. d = of_int z / 2 ^ 48 \<Longrightarrow> \<exists>z'. d = of_int z' * ulp x"
proof -
  assume "\<exists>z. d = of_int z / 2 ^ 48"
  then obtain z where d: "d = of_int z / 2 ^ 48" ..
  from ulp_below_32 [OF assms] obtain n where n: "ulp x * 2 ^ n = 1 / 2 ^ 48" ..
  have "d = of_int z * (1 / 2 ^ 48)" unfolding d by (simp only: times_divide_eq_right mult_1_right)
  also have "\<dots> = of_int z * (ulp x * 2 ^ n)" by (simp only: n)
  also have "\<dots> = of_int (z * 2 ^ n) * ulp x" by simp
  finally show ?thesis ..
qed

lemma fl_le_below_32:
  assumes "\<bar>x\<bar> < 32" "\<exists>z. d = of_int z / 2 ^ 48" "x \<le> d"
  shows "fl x \<le> d"
proof -
  from grid_below_32 [OF assms(1,2)] obtain z where "d = of_int z * ulp x" ..
  with assms(3) fl_le_grid [of x z] show ?thesis by simp
qed

lemma fl_ge_below_32:
  assumes "\<bar>x\<bar> < 32" "\<exists>z. d = of_int z / 2 ^ 48" "d \<le> x"
  shows "d \<le> fl x"
proof -
  from grid_below_32 [OF assms(1,2)] obtain z where "d = of_int z * ulp x" ..
  with assms(3) fl_ge_grid [of z x] show ?thesis by simp
qed

lemma dyadic_int: "\<exists>z. (of_int k :: rat) = of_int z / 2 ^ 48"
proof
  show "(of_int k :: rat) = of_int (k * 2 ^ 48) / 2 ^ 48" by simp
qed

lemma fl_exact_below_32:
  assumes "\<bar>x\<bar> < 32" "\<exists>z. x = of_int z / 2 ^ 48"
  shows "fl x = x"
  using fl_le_below_32 [OF assms, of] fl_ge_below_32 [OF assms] by simp

lemma dyadic_numeral: "\<exists>z. (numeral k :: rat) = of_int z / 2 ^ 48"
  using dyadic_int [of "numeral k"] by simp

lemma dyadic_zero: "\<exists>z. (0 :: rat) = of_int z / 2 ^ 48"
  using dyadic_int [of 0] by simp

subsection \<open>Unfolding the handlers\<close>

lemmas handler_defs = requestRide_def matchCallback_def getRide_def connect_def
  joinRideRoom_def disconnect_def respond_def emit_def save_def

lemma applyMatch_sel [simp]:
  "ride_id (applyMatch r d f e t) = ride_id r"
  "riderId (applyMatch r d f e t) = riderId r"
  "status (applyMatch r d f e t) = accepted"
  "driverId (applyMatch r d f e t) = Some d"
  "fare (applyMatch r d f e t) = Some f"
  "estimatedArrivalTime (applyMatch r d f e t) = Some e"
  "pickupTime (applyMatch r d f e t) = Some t"
  "pickupLocation (applyMatch r d f e t) = pickupLocation r"
  "destination (applyMatch r d f e t) = destination r"
  "createdAt (applyMatch r d f e t) = createdAt r"
  "updatedAt (applyMatch r d f e t) = updatedAt r"
  by (simp_all add: applyMatch_def)

lemma newRideDoc_sel [simp]:
  "ride_id (newRideDoc i t r p d) = i"
  "riderId (newRideDoc i t r p d) = r"
  "status (newRideDoc i t r p d) = searching"
  "driverId (newRideDoc i t r p d) = None"
  "fare (newRideDoc i t r p d) = None"
  "estimatedArrivalTime (newRideDoc i t r p d) = None"
  "pickupTime (newRideDoc i t r p d) = None"
  "pickupLocation (newRideDoc i t r p d) = p"
  "destination (newRideDoc i t r p d) = d"
  "createdAt (newRideDoc i t r p d) = t"
  "updatedAt (newRideDoc i t r p d) = t"
  by (simp_all add: newRideDoc_def)

lemma run_Nil [simp]: "run w [] = w"
  by (simp add: run_def)

lemma run_Cons [simp]: "run w (e # evs) = run (step w e) evs"
  by (simp add: run_def)

subsection \<open>Pending callbacks\<close>

text \<open>Taking the \<open>k\<close>-th pending callback off the list.\<close>

lemma set_remove_nth: "set (take k xs @ drop (Suc k) xs) \<subseteq> set xs"
  by (auto dest: in_set_takeD in_set_dropD)

lemma distinct_remove_nth:
  assumes "distinct (map f xs)" "k < length xs"
  shows "distinct (map f (take k xs @ drop (Suc k) xs))"
    and "\<forall>x\<in>set (take k xs @ drop (Suc k) xs). f x \<noteq> f (xs ! k)"
proof -
  have "xs = take k xs @ xs ! k # drop (Suc k) xs"
    using assms(2) by (rule id_take_nth_drop)
  then have "distinct (map f (take k xs @ xs ! k # drop (Suc k) xs))"
    using assms(1) by simp
  then have d: "distinct (map f (take k xs @ drop (Suc k) xs))"
    and n: "f (xs ! k) \<notin> f ` set (take k xs @ drop (Suc k) xs)"
    by auto
  from d show "distinct (map f (take k xs @ drop (Suc k) xs))" .
  from n show "\<forall>x\<in>set (take k xs @ drop (Suc k) xs). f x \<noteq> f (xs ! k)"
    by (metis imageI)
qed

subsection \<open>One step preserves the invariants\<close>

text \<open>What one event can do to the stored ride under one identifier.\<close>

lemma step_rides:
  assumes "invariant w"
  shows "rides (step w e) i = rides w i
       \<or> (rides w i = None \<and> i = newObjectId (oidCounter w) \<and>
           oidCounter (step w e) = Suc (oidCounter w) \<and>
           (\<exists>r. rides (step w e) i = Some r \<and> status r = searching \<and> ride_id r = i))
       \<or> (\<exists>r d f t x. rides w i = Some r \<and> status r = searching \<and>
           rides (step w e) i = Some (applyMatch r d f x t))"
proof (cases e)
  case (PostRideRequest rq b now saved)
  have fresh: "rides w (newObjectId (oidCounter w)) = None"
  proof (cases "rides w (newObjectId (oidCounter w))")
    case (Some r)
    with assms obtain c where "c < oidCounter w" "newObjectId (oidCounter w) = newObjectId c"
      unfolding invariant_def rides_ok_def by blast
    then show ?thesis by (simp add: newObjectId_def)
  qed simp
  with PostRideRequest show ?thesis
    by (auto simp: requestRide_def respond_def save_def Let_def split: option.splits)
next
  case (TimerFires k now u1 u2 ok)
  show ?thesis
  proof (cases "k < length (timers w) \<and> job_due (timers w ! k) \<le> now \<and> ok")
    case True
    then have "timers w ! k \<in> set (timers w)" by simp
    with assms have "rides w (ride_id (job_ride (timers w ! k))) = Some (job_ride (timers w ! k))"
      and "status (job_ride (timers w ! k)) = searching"
      unfolding invariant_def timers_ok_def by blast+
    with True TimerFires show ?thesis
      by (auto simp: matchCallback_def respond_def save_def emit_def Let_def)
  next
    case False
    with TimerFires show ?thesis
      by (auto simp: matchCallback_def Let_def)
  qed
qed (simp_all add: handler_defs split: option.splits)

lemma oidCounter_step: "oidCounter w \<le> oidCounter (step w e)"
  by (cases e) (simp_all add: handler_defs Let_def split: option.splits)

lemma rides_ok_step:
  assumes "invariant w"
  shows "rides_ok (step w e)"
  unfolding rides_ok_def
proof (intro allI impI)
  fix i r
  assume new: "rides (step w e) i = Some r"
  from assms have ok: "rides_ok w" by (simp add: invariant_def)
  have le: "oidCounter w \<le> oidCounter (step w e)" by (rule oidCounter_step)
  from step_rides [OF assms, of e i]
  show "ride_id r = i \<and> (\<exists>c<oidCounter (step w e). i = newObjectId c) \<and>
        (status r = searching \<or> status r = accepted)"
  proof (elim disjE conjE exE)
    assume "rides (step w e) i = rides w i"
    with new have "rides w i = Some r" by simp
    with ok have "ride_id r = i" "\<exists>c<oidCounter w. i = newObjectId c"
      "status r = searching \<or> status r = accepted"
      unfolding rides_ok_def by blast+
    with le show ?thesis by (meson less_le_trans)
  next
    fix r'
    assume "i = newObjectId (oidCounter w)" "oidCounter (step w e) = Suc (oidCounter w)"
      "rides (step w e) i = Some r'" "status r' = searching" "ride_id r' = i"
    with new show ?thesis by auto
  next
    fix r' d f t x
    assume old: "rides w i = Some r'" and "rides (step w e) i = Some (applyMatch r' d f x t)"
    with new have r: "r = applyMatch r' d f x t" by simp
    from ok old have "ride_id r' = i" "\<exists>c<oidCounter w. i = newObjectId c"
      unfolding rides_ok_def by blast+
    with le r show ?thesis by (simp, meson less_le_trans)
  qed
qed

lemma timers_ok_step:
  assumes "invariant w"
  shows "timers_ok (step w e)"
proof (cases e)
  case (PostRideRequest rq b now saved)
  from assms have rk: "rides_ok w" and tk: "timers_ok w" by (simp_all add: invariant_def)
  have fresh: "ride_id (job_ride j) \<noteq> newObjectId (oidCounter w)" if "j \<in> set (timers w)" for j
  proof -
    from tk that have "rides w (ride_id (job_ride j)) = Some (job_ride j)"
      unfolding timers_ok_def by blast
    with rk obtain c where "c < oidCounter w" "ride_id (job_ride j) = newObjectId c"
      unfolding rides_ok_def by blast
    then show ?thesis by (simp add: newObjectId_def)
  qed
  then have "\<forall>j\<in>set (timers w). newObjectId (oidCounter w) \<noteq> ride_id (job_ride j)"
    by metis
  with tk PostRideRequest show ?thesis
    unfolding timers_ok_def
    by (auto simp: requestRide_def respond_def save_def Let_def split: option.splits)
next
  case (TimerFires k now u1 u2 ok)
  from assms have tk: "timers_ok w" by (simp add: invariant_def)
  show ?thesis
  proof (cases "k < length (timers w) \<and> job_due (timers w ! k) \<le> now")
    case True
    let ?rest = "take k (timers w) @ drop (Suc k) (timers w)"
    from tk True have dk: "distinct (map (\<lambda>j. ride_id (job_ride j)) (timers w))"
      and k: "k < length (timers w)"
      unfolding timers_ok_def by simp_all
    have d: "distinct (map (\<lambda>j. ride_id (job_ride j)) ?rest)"
      by (rule distinct_remove_nth(1) [OF dk k])
    have n: "\<forall>j\<in>set ?rest. ride_id (job_ride j) \<noteq> ride_id (job_ride (timers w ! k))"
      by (rule distinct_remove_nth(2) [OF dk k])
    have sub: "set ?rest \<subseteq> set (timers w)" by (rule set_remove_nth)
    with tk have old: "\<forall>j\<in>set ?rest. rides w (ride_id (job_ride j)) = Some (job_ride j) \<and>
        status (job_ride j) = searching \<and>
        castObjectId (job_riderId j) = Some (riderId (job_ride j))"
      unfolding timers_ok_def by blast
    from True TimerFires d n old show ?thesis
      unfolding timers_ok_def
      by (simp add: matchCallback_def respond_def save_def emit_def Let_def)
  next
    case False
    with tk TimerFires show ?thesis by auto
  qed
next
  case (GetRide rq i ok)
  with assms show ?thesis
    by (simp add: invariant_def timers_ok_def getRide_def respond_def split: option.splits)
next
  case (Connect s)
  with assms show ?thesis by (simp add: invariant_def timers_ok_def connect_def)
next
  case (JoinRideRoom s u)
  with assms show ?thesis by (simp add: invariant_def timers_ok_def joinRideRoom_def)
next
  case (Disconnect s)
  with assms show ?thesis by (simp add: invariant_def timers_ok_def disconnect_def)
qed

lemma invariant_init: "invariant (init us)"
  by (simp add: invariant_def rides_ok_def timers_ok_def init_def)

lemma invariant_step: "invariant w \<Longrightarrow> invariant (step w e)"
  using rides_ok_step timers_ok_step by (simp add: invariant_def)

lemma invariant_run: "invariant w \<Longrightarrow> invariant (run w evs)"
  unfolding run_def by (induction evs arbitrary: w) (simp_all add: invariant_step)

lemma invariant_reachable: "invariant (run (init us) evs)"
  by (rule invariant_run [OF invariant_init])

lemma oidCounter_run: "oidCounter w \<le> oidCounter (run w evs)"
proof (induction evs arbitrary: w)
  case Nil
  show ?case by simp
next
  case (Cons e evs)
  have "oidCounter w \<le> oidCounter (step w e)" by (rule oidCounter_step)
  also have "\<dots> \<le> oidCounter (run (step w e) evs)" by (rule Cons.IH)
  finally show ?case by simp
qed

subsection \<open>A ride without a pending callback never changes\<close>

lemma settled_step:
  assumes "invariant w" "rides w i = Some r" "\<forall>j\<in>set (timers w). ride_id (job_ride j) \<noteq> i"
  shows "rides (step w e) i = Some r \<and> (\<forall>j\<in>set (timers (step w e)). ride_id (job_ride j) \<noteq> i)"
proof (cases e)
  case (PostRideRequest rq b now saved)
  from assms(1,2) obtain c where "c < oidCounter w" "i = newObjectId c"
    unfolding invariant_def rides_ok_def by blast
  then have "i \<noteq> newObjectId (oidCounter w)" "newObjectId (oidCounter w) \<noteq> i"
    by (simp_all add: newObjectId_def)
  with assms(2,3) PostRideRequest show ?thesis
    by (auto simp: requestRide_def respond_def save_def Let_def split: option.splits)
next
  case (TimerFires k now u1 u2 ok)
  show ?thesis
  proof (cases "k < length (timers w) \<and> job_due (timers w ! k) \<le> now")
    case True
    then have "timers w ! k \<in> set (timers w)" by simp
    with assms(3) have ne: "ride_id (job_ride (timers w ! k)) \<noteq> i" by blast
    have "set (take k (timers w) @ drop (Suc k) (timers w)) \<subseteq> set (timers w)"
      by (rule set_remove_nth)
    with assms(3) have "\<forall>j\<in>set (take k (timers w) @ drop (Suc k) (timers w)).
        ride_id (job_ride j) \<noteq> i"
      by blast
    with True TimerFires ne assms(2) show ?thesis
      by (simp add: matchCallback_def respond_def save_def emit_def Let_def)
  next
    case False
    with TimerFires assms(2,3) show ?thesis by auto
  qed
qed (use assms(2,3) in \<open>simp_all add: handler_defs split: option.splits\<close>)

lemma settled_run:
  assumes "invariant w" "rides w i = Some r" "\<forall>j\<in>set (timers w). ride_id (job_ride j) \<noteq> i"
  shows "rides (run w evs) i = Some r"
  using assms
proof (induction evs arbitrary: w)
  case Nil
  then show ?case by simp
next
  case (Cons e evs)
  from settled_step [OF Cons.prems, of e] invariant_step [OF Cons.prems(1), of e]
  show ?case by (simp add: Cons.IH)
qed

subsection \<open>The response log is write-only\<close>

lemma forget_step: "forget_responses (step w e) = forget_responses (step (forget_responses w) e)"
  by (cases e)
    (simp_all add: forget_responses_def handler_defs Let_def
       split: option.splits cong: if_cong)

lemma forget_run: "forget_responses (run w evs) = forget_responses (run (forget_responses w) evs)"
proof (induction evs arbitrary: w)
  case Nil
  show ?case by (simp add: forget_responses_def)
next
  case (Cons e evs)
  have "forget_responses (run (step w e) evs) = forget_responses (run (forget_responses (step w e)) evs)"
    by (rule Cons.IH)
  also have "\<dots> = forget_responses (run (forget_responses (step (forget_responses w) e)) evs)"
    by (simp add: forget_step [of w e])
  also have "\<dots> = forget_responses (run (step (forget_responses w) e) evs)"
    by (rule Cons.IH [symmetric])
  finally show ?case by simp
qed

subsection \<open>No response object is answered twice\<close>

lemma in_hand_step:
  assumes "distinct (in_hand w)" "set (request_of e) \<inter> set (in_hand w) = {}"
  shows "distinct (in_hand (step w e)) \<and>
         set (in_hand (step w e)) \<subseteq> set (in_hand w) \<union> set (request_of e)"
proof (cases e)
  case (PostRideRequest rq b now saved)
  with assms show ?thesis
    by (auto simp: in_hand_def requestRide_def respond_def save_def Let_def split: option.splits)
next
  case (TimerFires k now u1 u2 ok)
  show ?thesis
  proof (cases "k < length (timers w) \<and> job_due (timers w ! k) \<le> now")
    case True
    let ?rest = "take k (timers w) @ drop (Suc k) (timers w)"
    from assms(1) have dt: "distinct (map job_res (timers w))"
      and dr: "distinct (map fst (responses w))"
      and disj: "fst ` set (responses w) \<inter> job_res ` set (timers w) = {}"
      by (simp_all add: in_hand_def)
    from True have k: "k < length (timers w)" by simp
    have d: "distinct (map job_res ?rest)" by (rule distinct_remove_nth(1) [OF dt k])
    have n: "\<forall>j\<in>set ?rest. job_res j \<noteq> job_res (timers w ! k)"
      by (rule distinct_remove_nth(2) [OF dt k])
    have sub: "set ?rest \<subseteq> set (timers w)" by (rule set_remove_nth)
    from k have mem: "timers w ! k \<in> set (timers w)" by simp
    with disj have new: "job_res (timers w ! k) \<notin> fst ` set (responses w)" by blast
    from disj sub have disj': "fst ` set (responses w) \<inter> job_res ` set ?rest = {}" by blast
    from n have new': "job_res (timers w ! k) \<notin> job_res ` set ?rest" by (metis imageE)
    have inh: "set (in_hand w) = fst ` set (responses w) \<union> job_res ` set (timers w)"
      by (simp add: in_hand_def)
    show ?thesis
    proof (cases ok)
      case True
      have "in_hand (step w e) =
          map fst (responses w) @ [job_res (timers w ! k)] @ map job_res ?rest"
        using \<open>k < length (timers w) \<and> job_due (timers w ! k) \<le> now\<close> TimerFires True
        by (simp add: in_hand_def matchCallback_def respond_def save_def emit_def Let_def)
      moreover have "distinct (map fst (responses w) @ [job_res (timers w ! k)] @ map job_res ?rest)"
        using dr d new new' disj' by (simp only: distinct_append) auto
      moreover have "set (map fst (responses w) @ [job_res (timers w ! k)] @ map job_res ?rest)
          \<subseteq> set (in_hand w)"
        using sub mem unfolding inh by auto
      ultimately show ?thesis by auto
    next
      case False
      have "in_hand (step w e) = map fst (responses w) @ map job_res ?rest"
        using \<open>k < length (timers w) \<and> job_due (timers w ! k) \<le> now\<close> TimerFires False
        by (simp add: in_hand_def matchCallback_def Let_def)
      moreover have "distinct (map fst (responses w) @ map job_res ?rest)"
        using dr d disj' by (simp only: distinct_append) auto
      moreover have "set (map fst (responses w) @ map job_res ?rest) \<subseteq> set (in_hand w)"
        using sub unfolding inh by auto
      ultimately show ?thesis by auto
    qed
  next
    case False
    with TimerFires assms show ?thesis by auto
  qed
next
  case (GetRide rq i ok)
  with assms show ?thesis
    by (auto simp: in_hand_def getRide_def respond_def split: option.splits)
qed (use assms in \<open>simp_all add: in_hand_def handler_defs\<close>)

lemma in_hand_run:
  assumes "distinct (in_hand w)" "distinct (requests evs)"
    "set (requests evs) \<inter> set (in_hand w) = {}"
  shows "distinct (in_hand (run w evs))"
  using assms
proof (induction evs arbitrary: w)
  case Nil
  then show ?case by simp
next
  case (Cons e evs)
  from Cons.prems have e: "set (request_of e) \<inter> set (in_hand w) = {}"
    and rest: "distinct (requests evs)" "set (request_of e) \<inter> set (requests evs) = {}"
      "set (requests evs) \<inter> set (in_hand w) = {}"
    by (auto simp: requests_def)
  from in_hand_step [OF Cons.prems(1) e]
  have d: "distinct (in_hand (step w e))"
    and s: "set (in_hand (step w e)) \<subseteq> set (in_hand w) \<union> set (request_of e)"
    by simp_all
  from s rest have "set (requests evs) \<inter> set (in_hand (step w e)) = {}" by blast
  with Cons.IH [OF d rest(1)] show ?case by simp
qed

lemma answered_once:
  assumes "distinct (requests evs)"
  shows "distinct (map fst (responses (run (init us) evs)))"
proof -
  have "distinct (in_hand (run (init us) evs))"
    using assms by (intro in_hand_run) (simp_all add: in_hand_def init_def)
  then show ?thesis by (simp add: in_hand_def)
qed

subsection \<open>Evaluating the model on concrete inputs\<close>

lemma showNat_digits [simp]:
  "showNat 0 = ''0''" "showNat 1 = ''1''" "showNat 2 = ''2''" "showNat 3 = ''3''"
  "showNat 4 = ''4''" "showNat 5 = ''5''" "showNat 6 = ''6''" "showNat 7 = ''7''"
  by (simp_all add: showNat.simps digit_def)

lemma cast_rider_a [simp]: "castObjectId rider_a = Some 10"
  by (simp add: castObjectId_def rider_a_def hexDigit_def)

lemma rider_a_nonempty [simp]: "rider_a \<noteq> []"
  by (simp add: rider_a_def)

lemma fl_half_cases:
  "fl 10 = 10" "fl 20 = 20" "fl (5 / 2) = 5 / 2"
proof -
  show "fl 10 = 10" by (rule fl_exact_below_32) (simp_all add: dyadic_numeral)
  show "fl 20 = 20" by (rule fl_exact_below_32) (simp_all add: dyadic_numeral)
  have "\<exists>z. (5 / 2 :: rat) = of_int z / 2 ^ 48"
  proof
    show "(5 / 2 :: rat) = of_int (5 * 2 ^ 47) / 2 ^ 48" by simp
  qed
  then show "fl (5 / 2) = 5 / 2" by (intro fl_exact_below_32) simp_all
qed

lemma mockFare_half: "mockFare (1 / 2) = 20"
proof -
  have "\<lfloor>(20::rat) * 100 + 1 / 2\<rfloor> = 2000" by (simp add: floor_eq_iff)
  then show ?thesis by (simp add: mockFare_def toFixed2_def fl_half_cases)
qed

lemma mockEta_half: "etaMinutes (1 / 2) = 4" "mockEta (1 / 2) = ''4 minutes''"
proof -
  have "\<lfloor>(5::rat) / 2\<rfloor> = 2" by (simp add: floor_eq_iff)
  then show "etaMinutes (1 / 2) = 4" by (simp add: etaMinutes_def fl_half_cases)
  then show "mockEta (1 / 2) = ''4 minutes''" by (simp add: mockEta_def)
qed

text \<open>
  At the binary64 value nearest to 0.6 the exact product is a little less than 3; the
  product the machine computes is 3, and the ETA is ``5 minutes''.
\<close>

lemma fl_draw06: "draw06 * 5 < 3" "fl (draw06 * 5) = 3"
proof -
  show "draw06 * 5 < 3" by (simp add: draw06_def)
  have "expo (draw06 * 5) = 1"
    by (rule expo_eq) (simp_all add: draw06_def)
  then have u: "ulp (draw06 * 5) = 1 / 2 ^ 51"
    by (simp add: ulp_def power_int_minus field_simps)
  have q: "draw06 * 5 / (1 / 2 ^ 51) = 6755399441055743 + 3 / 4"
    by (simp add: draw06_def)
  have f: "\<lfloor>(6755399441055743::rat) + 3 / 4\<rfloor> = 6755399441055743"
    by (simp add: floor_eq_iff)
  have "rne (6755399441055743 + 3 / 4) = 6755399441055744"
    unfolding rne_def Let_def f by simp
  with q have r: "rne (draw06 * 5 / (1 / 2 ^ 51)) = 6755399441055744" by (simp only:)
  have "fl (draw06 * 5) = of_int (rne (draw06 * 5 / (1 / 2 ^ 51))) * (1 / 2 ^ 51)"
    unfolding fl_def u ..
  also have "\<dots> = 3" unfolding r by simp
  finally show "fl (draw06 * 5) = 3" .
qed

lemma etaMinutes_draw06: "etaMinutes draw06 = 5" "mockEta draw06 = ''5 minutes''"
  by (simp_all add: etaMinutes_def mockEta_def fl_draw06)

lemmas eval_defs = init_def requestRide_def matchCallback_def getRide_def connect_def
  joinRideRoom_def disconnect_def respond_def emit_def save_def falsy_def str_def
  newObjectId_def newRideDoc_def applyMatch_def rideMsg_def populate_def Let_def
  mockFare_half mockEta_half

lemma requested_eval:
  "requested = \<lparr>users = Map.empty,
     rides = [0 \<mapsto> newRideDoc 0 1000 10 ''A'' ''B''], oidCounter = 1,
     timers = [\<lparr>job_ride = newRideDoc 0 1000 10 ''A'' ''B'', job_riderId = rider_a,
                job_res = 1, job_due = 4020\<rparr>],
     sockets = {}, rooms = (\<lambda>s. {}), inbox = (\<lambda>s. []), responses = [], unhandled = 0\<rparr>"
  by (simp add: requested_def scenario1_def init_def requestRide_def save_def falsy_def str_def
      newObjectId_def Let_def)

lemma requested_reachable:
  "requested = run (init Map.empty) [PostRideRequest 1 scenario1 1000 (Some 1020)]"
  by (simp add: requested_def)

lemma matched_eval:
  "users matched = Map.empty"
  "rides matched = [0 \<mapsto>
     \<lparr>ride_id = 0, riderId = 10, driverId = Some 1, pickupLocation = ''A'',
      destination = ''B'', status = accepted, fare = Some 20,
      estimatedArrivalTime = Some ''4 minutes'', pickupTime = Some 4020,
      createdAt = 1000, updatedAt = 1000\<rparr>]"
  "timers matched = []"
  "oidCounter matched = 2"
  "unhandled matched = 0"
  "responses matched =
     [(1, Response 200 (RideMsg (driver_found\<lparr>msg_message :=
          ''Ride request received and driver searching initiated.''\<rparr>)))]"
  by (simp_all add: matched_def requested_eval driver_found_def eval_defs)

lemma stuck_eval:
  "rides stuck = [0 \<mapsto> newRideDoc 0 1000 10 ''A'' ''B'']"
  "timers stuck = []"
  "responses stuck = []"
  "unhandled stuck = 1"
  "inbox stuck = (\<lambda>s. [])"
  by (simp_all add: stuck_def requested_eval eval_defs)

lemma stuck_reachable:
  "stuck = run (init Map.empty)
     [PostRideRequest 1 scenario1 1000 (Some 1020), TimerFires 0 4020 (1 / 2) (1 / 2) False]"
  by (simp add: stuck_def requested_def)


subsection \<open>Evaluating a rounding step\<close>

lemma fl_eval:
  assumes "2 powi e \<le> \<bar>x\<bar>" "\<bar>x\<bar> < 2 powi (e + 1)" "- 1022 \<le> e" "e \<le> 1023"
    and "rne (x / 2 powi (e - 52)) = m"
  shows "fl x = of_int m * 2 powi (e - 52)"
proof -
  have "expo x = e" using assms(1-4) by (rule expo_eq)
  then show ?thesis using assms(5) by (simp add: fl_def ulp_def)
qed

lemma rne_eval:
  "y = of_int f + d \<Longrightarrow> 0 \<le> d \<Longrightarrow> d < 1 / 2 \<Longrightarrow> rne y = f"
  "y = of_int f + d \<Longrightarrow> 1 / 2 < d \<Longrightarrow> d < 1 \<Longrightarrow> rne y = f + 1"
  "y = of_int f + 1 / 2 \<Longrightarrow> even f \<Longrightarrow> rne y = f"
  "y = of_int f + 1 / 2 \<Longrightarrow> odd f \<Longrightarrow> rne y = f + 1"
proof -
  have fl1: "\<lfloor>of_int f + d\<rfloor> = f" if "0 \<le> d" "d < 1" for d :: rat
    using that by (simp add: floor_eq_iff)
  show "y = of_int f + d \<Longrightarrow> 0 \<le> d \<Longrightarrow> d < 1 / 2 \<Longrightarrow> rne y = f"
    using fl1 [of d] by (simp add: rne_def Let_def)
  show "y = of_int f + d \<Longrightarrow> 1 / 2 < d \<Longrightarrow> d < 1 \<Longrightarrow> rne y = f + 1"
    using fl1 [of d] by (simp add: rne_def Let_def)
  show "y = of_int f + 1 / 2 \<Longrightarrow> even f \<Longrightarrow> rne y = f"
    using fl1 [of "1 / 2"] by (simp add: rne_def Let_def)
  show "y = of_int f + 1 / 2 \<Longrightarrow> odd f \<Longrightarrow> rne y = f + 1"
    using fl1 [of "1 / 2"] by (simp add: rne_def Let_def)
qed

text \<open>
  The draw \<open>4510355026811551 / 2^53\<close>, about 0.50075. In exact arithmetic
  \<open>u * 20 + 10\<close> is a little less than 20.015 and would print as 20.01. The machine
  rounds the product up, then the sum lands halfway between two binary64 values and goes
  to the even one, a little more than 20.015: the fare is 20.02.
\<close>

lemma fare_draw5_exact: "toFixed2 (draw5 * 20 + 10) = 2001 / 100"
proof -
  have "\<lfloor>(draw5 * 20 + 10) * 100 + 1 / 2\<rfloor> = 2001"
    by (simp add: draw5_def floor_eq_iff)
  then show ?thesis by (simp add: toFixed2_def)
qed

lemma fare_draw5_steps:
  "fl (draw5 * 20) = 5637943783514439 / 2 ^ 49"
  "fl (5637943783514439 / 2 ^ 49 + 10) = 5633721658863780 / 2 ^ 48"
  "toFixed2 (5633721658863780 / 2 ^ 48) = 2002 / 100"
  "fl (2002 / 100) = 5635129033747333 / 2 ^ 48"
proof -
  have "rne (draw5 * 20 / 2 powi (3 - 52)) = 5637943783514438 + 1"
    by (rule rne_eval(2) [where d = "3 / 4"]) (simp_all add: draw5_def power_int_minus)
  then have "fl (draw5 * 20) = of_int (5637943783514438 + 1) * 2 powi (3 - 52)"
    by (intro fl_eval) (simp_all add: draw5_def)
  then show "fl (draw5 * 20) = 5637943783514439 / 2 ^ 49"
    by (simp add: power_int_minus field_simps)
  have "rne ((5637943783514439 / 2 ^ 49 + 10) / 2 powi (4 - 52)) = 5633721658863779 + 1"
    by (rule rne_eval(4)) (simp_all add: power_int_minus)
  then have "fl (5637943783514439 / 2 ^ 49 + 10) = of_int (5633721658863779 + 1) * 2 powi (4 - 52)"
    by (intro fl_eval) simp_all
  then show "fl (5637943783514439 / 2 ^ 49 + 10) = 5633721658863780 / 2 ^ 48"
    by (simp add: power_int_minus field_simps)
  have "\<lfloor>(5633721658863780 / 2 ^ 48 :: rat) * 100 + 1 / 2\<rfloor> = 2002"
    by (simp add: floor_eq_iff)
  then show "toFixed2 (5633721658863780 / 2 ^ 48) = 2002 / 100"
    by (simp add: toFixed2_def)
  have "rne (2002 / 100 / 2 powi (4 - 52)) = 5635129033747333"
    by (rule rne_eval(1) [where d = "3 / 25"]) (simp_all add: power_int_minus)
  then have "fl (2002 / 100) = of_int 5635129033747333 * 2 powi (4 - 52)"
    by (intro fl_eval) simp_all
  then show "fl (2002 / 100) = 5635129033747333 / 2 ^ 48"
    by (simp add: power_int_minus field_simps)
qed

lemma mockFare_draw5: "mockFare draw5 = 5635129033747333 / 2 ^ 48"
  unfolding mockFare_def by (simp only: fare_draw5_steps)

subsection \<open>The scenarios with other spellings\<close>

lemma cast_rider_A [simp]: "castObjectId rider_A = Some 10"
  by (simp add: castObjectId_def rider_A_def hexDigit_def)

lemma cast_short [simp]: "castObjectId ''u1'' = None" "castObjectId ''7'' = None"
  by (simp_all add: castObjectId_def)

lemma cast_ride_texts [simp]:
  "castObjectId ''000000000000000000000000'' = Some 0"
  "castObjectId ''000000000000000000000007'' = Some 7"
  by (simp_all add: castObjectId_def hexDigit_def)

lemma rider_spellings [simp]: "rider_A \<noteq> rider_a" "rider_a \<noteq> rider_A" "rider_A \<noteq> []"
  "rider_A \<noteq> ''s1''" "rider_a \<noteq> ''s2''" "rider_a \<noteq> ''s3''"
  by (simp_all add: rider_a_def rider_A_def)


section \<open>The claims\<close>

subsection \<open>C1: when the request is answered\<close>

text \<open>
  Claim C1 asks that a valid request be acknowledged at once with status \<open>searching\<close>,
  outside the match callback. The handler does not do that. For a body whose three
  fields are non-empty and whose \<open>riderId\<close> is an ObjectId, once the write is
  acknowledged (at time \<open>t\<close>) the handler has sent no response: it has stored the ride
  and scheduled the callback, due at \<open>t + 3000\<close>, and before that time the callback does
  not run. The one response the request ever gets is written inside the callback, after
  the fare and the driver have been set, so it carries status \<open>accepted\<close> under the text
  ``Ride request received and driver searching initiated.''; when the callback's \<open>save\<close>
  is rejected there is no response at all.
\<close>

theorem requestRide_defers_response:
  assumes "\<not> falsy (req_riderId b)" "\<not> falsy (req_pickupLocation b)" "\<not> falsy (req_destination b)"
    and "castObjectId (str (req_riderId b)) = Some r"
  shows "responses (step w (PostRideRequest rq b now (Some t))) = responses w \<and>
         (\<exists>j. timers (step w (PostRideRequest rq b now (Some t))) = timers w @ [j] \<and>
              job_res j = rq \<and> job_due j = t + 3000) \<and>
         (\<forall>k t' u1 u2 s. k < length (timers w) \<and> t' < job_due (timers w ! k) \<longrightarrow>
              step w (TimerFires k t' u1 u2 s) = w) \<and>
         (\<forall>j t' u1 u2. responses (matchCallback w j t' u1 u2 True) =
              responses w @ [(job_res j, Response 200 (RideMsg (rideMsg
                 (applyMatch (job_ride j) (newObjectId (oidCounter w)) (mockFare u1) (mockEta u2) t')
                 ''Ride request received and driver searching initiated.'')))]) \<and>
         (\<forall>j t' u1 u2. responses (matchCallback w j t' u1 u2 False) = responses w)"
  using assms
  by (simp add: requestRide_def matchCallback_def save_def emit_def respond_def Let_def)

text \<open>
  On the first scenario: nothing has been sent when the handler returns, nothing at time
  4019, at time 4020 the callback answers with status \<open>accepted\<close>, and nothing is ever
  sent when the callback's write is refused.
\<close>

theorem requestRide_defers_response_at_scenario1:
  "castObjectId (str (req_riderId scenario1)) = Some 10 \<and>
   responses requested = [] \<and>
   step requested (TimerFires 0 4019 (1 / 2) (1 / 2) True) = requested \<and>
   responses matched =
     [(1, Response 200 (RideMsg (driver_found\<lparr>msg_message :=
          ''Ride request received and driver searching initiated.''\<rparr>)))] \<and>
   responses stuck = []"
proof -
  have v: "\<not> falsy (req_riderId scenario1)" "\<not> falsy (req_pickupLocation scenario1)"
    "\<not> falsy (req_destination scenario1)" "castObjectId (str (req_riderId scenario1)) = Some 10"
    by (simp_all add: scenario1_def falsy_def str_def)
  from requestRide_defers_response [OF v, of "init Map.empty" 1 1000 1020]
  have "responses requested = []" by (simp add: requested_def init_def)
  moreover have "step requested (TimerFires 0 4019 (1 / 2) (1 / 2) True) = requested"
    by (simp add: requested_eval)
  ultimately show ?thesis using v(4) by (simp add: matched_eval stuck_eval)
qed

subsection \<open>C3: range of the reference matching provider\<close>

text \<open>
  Claim C3. For every match the reference matching provider produces, that is for all
  draws \<open>u1\<close>, \<open>u2\<close> of \<open>Math.random\<close> (in \<open>[0, 1)\<close>), the fare lies in \<open>[10.00, 30.00]\<close>
  and the ETA is a whole number of minutes in \<open>[2, 7]\<close>; these are the fare and the ETA
  text the callback stores in the ride. The fare and the ETA are the binary64 values the
  program computes: no rounding step leaves the interval, because its ends (and 0, 5 and
  20 on the way) are binary64 values themselves.
\<close>

theorem reference_match_bounds:
  assumes "0 \<le> u1" "u1 < 1" "0 \<le> u2" "u2 < 1"
  shows "10 \<le> mockFare u1 \<and> mockFare u1 \<le> 30 \<and>
         2 \<le> etaMinutes u2 \<and> etaMinutes u2 \<le> 7 \<and>
         mockEta u2 = showNat (etaMinutes u2) @ '' minutes'' \<and>
         rides (matchCallback w j now u1 u2 True) (ride_id (job_ride j)) =
           Some (applyMatch (job_ride j) (newObjectId (oidCounter w))
                   (mockFare u1) (mockEta u2) now)"
proof -
  define x1 where "x1 = fl (u1 * 20)"
  define x2 where "x2 = fl (x1 + 10)"
  define c where "c = toFixed2 x2"
  from assms(1,2) have p: "\<bar>u1 * 20\<bar> < 32" "0 \<le> u1 * 20" "u1 * 20 \<le> 20" by simp_all
  have x1: "0 \<le> x1" "x1 \<le> 20"
    unfolding x1_def
    using fl_ge_below_32 [OF p(1) dyadic_zero p(2)] fl_le_below_32 [OF p(1) dyadic_numeral p(3)]
    by simp_all
  then have s: "\<bar>x1 + 10\<bar> < 32" "10 \<le> x1 + 10" "x1 + 10 \<le> 30" by simp_all
  have x2: "10 \<le> x2" "x2 \<le> 30"
    unfolding x2_def
    using fl_ge_below_32 [OF s(1) dyadic_numeral s(2)] fl_le_below_32 [OF s(1) dyadic_numeral s(3)]
    by simp_all
  have "(1000::int) \<le> \<lfloor>x2 * 100 + 1 / 2\<rfloor>" using x2(1) by (simp add: le_floor_iff)
  moreover have "\<lfloor>x2 * 100 + 1 / 2\<rfloor> < (3001::int)" using x2(2) by (simp add: floor_less_iff)
  ultimately have c: "\<bar>c\<bar> < 32" "10 \<le> c" "c \<le> 30" by (simp_all add: c_def toFixed2_def)
  have f: "10 \<le> mockFare u1 \<and> mockFare u1 \<le> 30"
    unfolding mockFare_def x1_def [symmetric] x2_def [symmetric] c_def [symmetric]
    using fl_ge_below_32 [OF c(1) dyadic_numeral c(2)] fl_le_below_32 [OF c(1) dyadic_numeral c(3)]
    by simp
  from assms(3,4) have q: "\<bar>u2 * 5\<bar> < 32" "0 \<le> u2 * 5" "u2 * 5 \<le> 5" by simp_all
  have "fl (u2 * 5) \<le> 5" using fl_le_below_32 [OF q(1) dyadic_numeral q(3)] by simp
  then have "nat \<lfloor>fl (u2 * 5)\<rfloor> \<le> 5" by (simp add: nat_le_iff floor_le_iff)
  then have e: "2 \<le> etaMinutes u2 \<and> etaMinutes u2 \<le> 7"
    unfolding etaMinutes_def by linarith
  have t: "rides (matchCallback w j now u1 u2 True) (ride_id (job_ride j)) =
           Some (applyMatch (job_ride j) (newObjectId (oidCounter w))
                   (mockFare u1) (mockEta u2) now)"
    by (simp add: matchCallback_def Let_def respond_def emit_def save_def)
  from f e t show ?thesis by (simp add: mockEta_def)
qed

text \<open>
  At the draws \<open>draw5\<close> and \<open>draw06\<close>, where rounding decides: the fare is the binary64
  value of 20.02 (not of 20.01, the exact arithmetic's result) and the ETA is
  ``5 minutes'' (not 4).
\<close>

theorem reference_match_bounds_witness:
  "0 \<le> draw5 \<and> draw5 < 1 \<and> 0 \<le> draw06 \<and> draw06 < 1 \<and>
   mockFare draw5 = 5635129033747333 / 2 ^ 48 \<and> 10 \<le> mockFare draw5 \<and> mockFare draw5 \<le> 30 \<and>
   etaMinutes draw06 = 5 \<and> 2 \<le> etaMinutes draw06 \<and> etaMinutes draw06 \<le> 7 \<and>
   mockEta draw06 = ''5 minutes''"
proof -
  have h: "0 \<le> draw5" "draw5 < 1" "0 \<le> draw06" "draw06 < 1"
    by (simp_all add: draw5_def draw06_def)
  from reference_match_bounds [OF h] mockFare_draw5 etaMinutes_draw06 h show ?thesis by simp
qed

subsection \<open>C4: what the match writes\<close>




subsection \<open>C5: an incomplete request is refused at once\<close>

text \<open>
  Claim C5. When \<open>riderId\<close>, \<open>pickupLocation\<close> or \<open>destination\<close> is missing or empty,
  the request handler answers 400 in the same step and changes nothing else: no ride is
  stored and no callback is scheduled. Whatever happens afterwards, the rides, the
  pending callbacks and every socket's received events are what they would be had the
  request never been made, so no ride-update event is ever delivered for it.
\<close>

theorem requestRide_invalid:
  assumes "req_riderId b = None \<or> req_riderId b = Some [] \<or>
           req_pickupLocation b = None \<or> req_pickupLocation b = Some [] \<or>
           req_destination b = None \<or> req_destination b = Some []"
  shows "step w (PostRideRequest rq b now saved) =
           w\<lparr>responses := responses w @
                [(rq, Response 400 (Message ''Missing required ride details.''))]\<rparr> \<and>
         rides (run (step w (PostRideRequest rq b now saved)) evs) = rides (run w evs) \<and>
         timers (run (step w (PostRideRequest rq b now saved)) evs) = timers (run w evs) \<and>
         inbox (run (step w (PostRideRequest rq b now saved)) evs) = inbox (run w evs)"
proof -
  let ?w' = "step w (PostRideRequest rq b now saved)"
  from assms have "falsy (req_riderId b) \<or> falsy (req_pickupLocation b) \<or>
      falsy (req_destination b)"
    by (auto simp: falsy_def)
  then have eq: "?w' = w\<lparr>responses := responses w @
                [(rq, Response 400 (Message ''Missing required ride details.''))]\<rparr>"
    by (simp add: requestRide_def respond_def)
  then have "forget_responses ?w' = forget_responses w"
    by (simp add: forget_responses_def)
  then have "forget_responses (run ?w' evs) = forget_responses (run w evs)"
    by (metis forget_run)
  then have "rides (forget_responses (run ?w' evs)) = rides (forget_responses (run w evs))"
    "timers (forget_responses (run ?w' evs)) = timers (forget_responses (run w evs))"
    "inbox (forget_responses (run ?w' evs)) = inbox (forget_responses (run w evs))"
    by simp_all
  then have "rides (run ?w' evs) = rides (run w evs)" "timers (run ?w' evs) = timers (run w evs)"
    "inbox (run ?w' evs) = inbox (run w evs)"
    by (simp_all add: forget_responses_def)
  with eq show ?thesis by simp
qed

text \<open>
  The second end-to-end scenario: an empty \<open>pickupLocation\<close>, on a server where a socket
  has joined the rider's room.
\<close>

theorem requestRide_invalid_witness:
  "req_pickupLocation \<lparr>req_riderId = Some ''u1'', req_pickupLocation = Some [],
      req_destination = Some ''B''\<rparr> = Some [] \<and>
   responses (step (run (init Map.empty) [Connect ''s1'', JoinRideRoom ''s1'' ''u1''])
     (PostRideRequest 1 \<lparr>req_riderId = Some ''u1'', req_pickupLocation = Some [],
        req_destination = Some ''B''\<rparr> 1000 (Some 1020))) =
     [(1, Response 400 (Message ''Missing required ride details.''))] \<and>
   rides (run (step (run (init Map.empty) [Connect ''s1'', JoinRideRoom ''s1'' ''u1''])
     (PostRideRequest 1 \<lparr>req_riderId = Some ''u1'', req_pickupLocation = Some [],
        req_destination = Some ''B''\<rparr> 1000 (Some 1020)))
     [TimerFires 0 4000 (1 / 2) (1 / 2) True]) = Map.empty \<and>
   inbox (run (step (run (init Map.empty) [Connect ''s1'', JoinRideRoom ''s1'' ''u1''])
     (PostRideRequest 1 \<lparr>req_riderId = Some ''u1'', req_pickupLocation = Some [],
        req_destination = Some ''B''\<rparr> 1000 (Some 1020)))
     [TimerFires 0 4000 (1 / 2) (1 / 2) True]) ''s1'' = []"
  using requestRide_invalid [of "\<lparr>req_riderId = Some ''u1'', req_pickupLocation = Some [],
      req_destination = Some ''B''\<rparr>"
    "run (init Map.empty) [Connect ''s1'', JoinRideRoom ''s1'' ''u1'']" 1 1000 "Some 1020"
    "[TimerFires 0 4000 (1 / 2) (1 / 2) True]"]
  by (simp add: init_def connect_def joinRideRoom_def)

subsection \<open>C6: creating a ride\<close>

text \<open>
  Claim C6 takes every request with three non-empty fields for valid. The schema makes
  \<open>riderId\<close> an ObjectId, so a non-empty \<open>riderId\<close> that is not 24 hexadecimal digits
  fails validation in \<open>save\<close>. Counterexample: the first scenario with the rider named
  \<open>u1\<close>, the database ready to accept the write: the handler answers 500 and no ride is
  stored.
\<close>

theorem requestRide_u1_counterexample:
  "req_riderId scenario_u1 = Some ''u1'' \<and> req_pickupLocation scenario_u1 = Some ''A'' \<and>
   req_destination scenario_u1 = Some ''B'' \<and>
   responses (step (init Map.empty) (PostRideRequest 1 scenario_u1 1000 (Some 1020))) =
     [(1, Response 500 (Message ''Failed to request ride''))] \<and>
   rides (step (init Map.empty) (PostRideRequest 1 scenario_u1 1000 (Some 1020))) = Map.empty \<and>
   timers (step (init Map.empty) (PostRideRequest 1 scenario_u1 1000 (Some 1020))) = []"
  by (simp add: scenario_u1_def scenario1_def init_def requestRide_def respond_def falsy_def
      str_def Let_def)

text \<open>
  Claim C6 as amended. Take a request whose \<open>pickupLocation\<close> and \<open>destination\<close> are
  non-empty and whose \<open>riderId\<close> is non-empty text \<open>x\<close>, in any state \<open>w\<close> the server
  reaches from its start. If \<open>x\<close> is an ObjectId (24 hexadecimal digits) and the
  database accepts the write, the handler stores a new ride in \<open>searching\<close>, created at
  the time of the request, under a freshly generated identifier \<open>i\<close> that no stored ride
  has, and changes no other ride; no later creation, after any further events, is given
  the identifier \<open>i\<close> again. If \<open>x\<close> is not an ObjectId, the handler answers 500 and
  stores nothing.
\<close>

theorem requestRide_creates:
  assumes "req_riderId b = Some x" "x \<noteq> []" "req_pickupLocation b = Some p" "p \<noteq> []"
    "req_destination b = Some d" "d \<noteq> []"
    and "w = run (init us) evs"
    and "i = newObjectId (oidCounter w)"
  shows "(\<forall>r t. castObjectId x = Some r \<longrightarrow>
            rides w i = None \<and>
            rides (step w (PostRideRequest rq b now (Some t))) i = Some (newRideDoc i now r p d) \<and>
            ride_id (newRideDoc i now r p d) = i \<and>
            status (newRideDoc i now r p d) = searching \<and>
            createdAt (newRideDoc i now r p d) = now \<and>
            (\<forall>i'. i' \<noteq> i \<longrightarrow> rides (step w (PostRideRequest rq b now (Some t))) i' = rides w i') \<and>
            (\<forall>i' r'. rides w i' = Some r' \<longrightarrow> ride_id r' \<noteq> i) \<and>
            (\<forall>evs'. newObjectId (oidCounter (run (step w (PostRideRequest rq b now (Some t))) evs'))
                 \<noteq> i)) \<and>
         (castObjectId x = None \<longrightarrow>
            (\<forall>saved. rides (step w (PostRideRequest rq b now saved)) = rides w \<and>
               timers (step w (PostRideRequest rq b now saved)) = timers w \<and>
               responses (step w (PostRideRequest rq b now saved)) =
                 responses w @ [(rq, Response 500 (Message ''Failed to request ride''))]))"
proof -
  have inv: "invariant w" using assms(7) by (simp add: invariant_reachable)
  then have rk: "rides_ok w" by (simp add: invariant_def)
  have old: "ride_id r' \<noteq> i" if "rides w i' = Some r'" for i' r'
  proof -
    from rk that obtain c where "ride_id r' = i'" "c < oidCounter w" "i' = newObjectId c"
      unfolding rides_ok_def by blast
    with assms(8) show ?thesis by (simp add: newObjectId_def)
  qed
  have fresh: "rides w i = None"
  proof (cases "rides w i")
    case (Some r')
    with rk have "ride_id r' = i" unfolding rides_ok_def by blast
    with old [OF Some] show ?thesis by simp
  qed simp
  have valid: "\<not> falsy (req_riderId b)" "\<not> falsy (req_pickupLocation b)"
    "\<not> falsy (req_destination b)" "str (req_riderId b) = x" "str (req_pickupLocation b) = p"
    "str (req_destination b) = d"
    using assms(1-6) by (simp_all add: falsy_def str_def)
  have good: "rides (step w (PostRideRequest rq b now (Some t))) = (rides w)(i \<mapsto> newRideDoc i now r p d) \<and>
      (\<forall>evs'. newObjectId (oidCounter (run (step w (PostRideRequest rq b now (Some t))) evs')) \<noteq> i)"
    if c: "castObjectId x = Some r" for r t
  proof -
    let ?w' = "step w (PostRideRequest rq b now (Some t))"
    have new: "rides ?w' = (rides w)(i \<mapsto> newRideDoc i now r p d)"
      and cnt: "oidCounter ?w' = Suc (oidCounter w)"
      using valid c assms(8) by (simp_all add: requestRide_def save_def Let_def)
    have "newObjectId (oidCounter (run ?w' evs')) \<noteq> i" for evs'
    proof -
      have "oidCounter ?w' \<le> oidCounter (run ?w' evs')" by (rule oidCounter_run)
      with cnt have "oidCounter w < oidCounter (run ?w' evs')" by simp
      with assms(8) show ?thesis by (simp add: newObjectId_def)
    qed
    with new show ?thesis by simp
  qed
  have bad: "rides (step w (PostRideRequest rq b now saved)) = rides w \<and>
               timers (step w (PostRideRequest rq b now saved)) = timers w \<and>
               responses (step w (PostRideRequest rq b now saved)) =
                 responses w @ [(rq, Response 500 (Message ''Failed to request ride''))]"
    if "castObjectId x = None" for saved
    using valid that by (simp add: requestRide_def respond_def Let_def)
  from fresh old good bad show ?thesis by simp
qed

text \<open>The first scenario, followed by a second request.\<close>

theorem requestRide_creates_witness:
  "castObjectId rider_a = Some 10 \<and>
   rides (init Map.empty) 0 = None \<and>
   rides requested 0 = Some (newRideDoc 0 1000 10 ''A'' ''B'') \<and>
   status (newRideDoc 0 1000 10 ''A'' ''B'') = searching \<and>
   createdAt (newRideDoc 0 1000 10 ''A'' ''B'') = 1000 \<and>
   newObjectId (oidCounter (run requested [PostRideRequest 2 scenario1 1500 (Some 1510)])) \<noteq> 0"
proof -
  have b: "req_riderId scenario1 = Some rider_a" "rider_a \<noteq> []"
    "req_pickupLocation scenario1 = Some ''A''" "''A'' \<noteq> []"
    "req_destination scenario1 = Some ''B''" "''B'' \<noteq> []"
    by (simp_all add: scenario1_def)
  have w: "init Map.empty = run (init Map.empty) []" by simp
  have i: "0 = newObjectId (oidCounter (init Map.empty))"
    by (simp add: init_def newObjectId_def)
  from requestRide_creates [OF b w i, of 1 1000] cast_rider_a
  show ?thesis unfolding requested_def by blast
qed

subsection \<open>C7: who receives the ride update\<close>




subsection \<open>C8: the ride-status query\<close>




subsection \<open>C9: the only transition is from searching to accepted\<close>

text \<open>
  Claim C9 gives every created ride exactly one transition. The callback has no handler
  for a rejected write. Counterexample: in the first scenario with the callback's write
  refused, the ride is still in \<open>searching\<close> after the callback has run, no callback is
  pending, and a later timer event or query leaves it so: it has made no transition.
\<close>

theorem ride_stuck_counterexample:
  "map_option status (rides requested 0) = Some searching \<and>
   map_option status (rides stuck 0) = Some searching \<and> timers stuck = [] \<and>
   map_option status (rides (run stuck [TimerFires 0 9000 (1 / 2) (1 / 2) True,
      GetRide 2 ''000000000000000000000000'' True]) 0) = Some searching"
  by (simp add: requested_eval stuck_eval getRide_def respond_def)

text \<open>
  Claim C9 as amended. In every state \<open>w\<close> the server reaches from its start: each
  stored ride is in \<open>searching\<close> or \<open>accepted\<close>; a ride that appears is in \<open>searching\<close>;
  one event either keeps a ride's status or moves it from \<open>searching\<close> to \<open>accepted\<close>,
  and removes no ride; an \<open>accepted\<close> ride has no pending callback; a ride without a
  pending callback never changes again; a request that creates a ride schedules its
  callback; when that callback runs and its write is accepted the ride goes from
  \<open>searching\<close> to \<open>accepted\<close>, and when the write is rejected the ride stays as stored
  and the callback is gone. So a created ride makes at most one transition, exactly one
  if the callback's write is accepted and none if it is rejected; the other four
  statuses of the schema are never assigned.
\<close>

theorem ride_status_lifecycle:
  assumes "w = run (init us) evs"
  shows "(\<forall>i r. rides w i = Some r \<longrightarrow> status r = searching \<or> status r = accepted) \<and>
         (\<forall>e i r. rides w i = None \<and> rides (step w e) i = Some r \<longrightarrow> status r = searching) \<and>
         (\<forall>e i r. rides w i = Some r \<longrightarrow>
            (\<exists>r'. rides (step w e) i = Some r' \<and>
                  (status r' = status r \<or> status r = searching \<and> status r' = accepted))) \<and>
         (\<forall>i r. rides w i = Some r \<and> status r = accepted \<longrightarrow>
            (\<forall>j\<in>set (timers w). ride_id (job_ride j) \<noteq> i)) \<and>
         (\<forall>i r evs'. rides w i = Some r \<and> (\<forall>j\<in>set (timers w). ride_id (job_ride j) \<noteq> i) \<longrightarrow>
            rides (run w evs') i = Some r) \<and>
         (\<forall>rq b now t r. \<not> falsy (req_riderId b) \<and> \<not> falsy (req_pickupLocation b) \<and>
              \<not> falsy (req_destination b) \<and> castObjectId (str (req_riderId b)) = Some r \<longrightarrow>
            (\<exists>j\<in>set (timers (step w (PostRideRequest rq b now (Some t)))).
               ride_id (job_ride j) = newObjectId (oidCounter w) \<and> job_due j = t + 3000)) \<and>
         (\<forall>k now u1 u2. k < length (timers w) \<and> job_due (timers w ! k) \<le> now \<longrightarrow>
            map_option status (rides w (ride_id (job_ride (timers w ! k)))) = Some searching \<and>
            map_option status (rides (step w (TimerFires k now u1 u2 True))
              (ride_id (job_ride (timers w ! k)))) = Some accepted \<and>
            rides (step w (TimerFires k now u1 u2 False)) = rides w \<and>
            timers (step w (TimerFires k now u1 u2 False)) =
              take k (timers w) @ drop (Suc k) (timers w))"
proof -
  have inv: "invariant w" using assms by (simp add: invariant_reachable)
  then have rk: "rides_ok w" and tk: "timers_ok w" by (simp_all add: invariant_def)
  have a: "\<forall>i r. rides w i = Some r \<longrightarrow> status r = searching \<or> status r = accepted"
    using rk unfolding rides_ok_def by blast
  have b: "status r = searching" if "rides w i = None \<and> rides (step w e) i = Some r" for e i r
    using step_rides [OF inv, of e i] that by auto
  have c: "\<exists>r'. rides (step w e) i = Some r' \<and>
                  (status r' = status r \<or> status r = searching \<and> status r' = accepted)"
    if "rides w i = Some r" for e i r
    using step_rides [OF inv, of e i] that by auto
  have d: "\<forall>j\<in>set (timers w). ride_id (job_ride j) \<noteq> i"
    if "rides w i = Some r \<and> status r = accepted" for i r
  proof
    fix j assume "j \<in> set (timers w)"
    with tk have "rides w (ride_id (job_ride j)) = Some (job_ride j)"
      "status (job_ride j) = searching"
      unfolding timers_ok_def by blast+
    with that show "ride_id (job_ride j) \<noteq> i" by auto
  qed
  have s: "rides (run w evs') i = Some r"
    if "rides w i = Some r \<and> (\<forall>j\<in>set (timers w). ride_id (job_ride j) \<noteq> i)" for i r evs'
    using that by (intro settled_run [OF inv]) simp_all
  have e: "\<exists>j\<in>set (timers (step w (PostRideRequest rq b now (Some t)))).
               ride_id (job_ride j) = newObjectId (oidCounter w) \<and> job_due j = t + 3000"
    if "\<not> falsy (req_riderId b) \<and> \<not> falsy (req_pickupLocation b) \<and> \<not> falsy (req_destination b) \<and>
        castObjectId (str (req_riderId b)) = Some r"
    for rq b now t r
    using that by (simp add: requestRide_def save_def Let_def)
  have f: "map_option status (rides w (ride_id (job_ride (timers w ! k)))) = Some searching \<and>
            map_option status (rides (step w (TimerFires k now u1 u2 True))
              (ride_id (job_ride (timers w ! k)))) = Some accepted \<and>
            rides (step w (TimerFires k now u1 u2 False)) = rides w \<and>
            timers (step w (TimerFires k now u1 u2 False)) =
              take k (timers w) @ drop (Suc k) (timers w)"
    if "k < length (timers w) \<and> job_due (timers w ! k) \<le> now" for k now u1 u2
  proof -
    from that have "timers w ! k \<in> set (timers w)" by simp
    with tk have "rides w (ride_id (job_ride (timers w ! k))) = Some (job_ride (timers w ! k))"
      "status (job_ride (timers w ! k)) = searching"
      unfolding timers_ok_def by blast+
    with that show ?thesis
      by (simp add: matchCallback_def Let_def respond_def emit_def save_def)
  qed
  from a b c d s e f show ?thesis by blast
qed

text \<open>
  The ride of the first scenario: \<open>searching\<close>, then \<open>accepted\<close> when the write is
  accepted, and it stays so.
\<close>

theorem ride_status_lifecycle_witness:
  "map_option status (rides requested 0) = Some searching \<and>
   map_option status (rides matched 0) = Some accepted \<and>
   map_option status (rides (step matched (TimerFires 0 9000 (1 / 2) (1 / 2) True)) 0) =
     Some accepted"
proof -
  have k: "0 < length (timers requested) \<and> job_due (timers requested ! 0) \<le> 4020"
    "ride_id (job_ride (timers requested ! 0)) = 0"
    by (simp_all add: requested_eval)
  from ride_status_lifecycle [OF requested_reachable] k
  have "map_option status (rides requested 0) = Some searching"
    "map_option status (rides matched 0) = Some accepted"
    unfolding matched_def by metis+
  moreover have "map_option status
      (rides (step matched (TimerFires 0 9000 (1 / 2) (1 / 2) True)) 0) = Some accepted"
    by (simp add: matched_eval)
  ultimately show ?thesis by simp
qed

subsection \<open>C10: the form's validation leaves the other state alone\<close>

text \<open>
  Claim C10. In the component \<open>App\<close>, when \<open>pickupLocation\<close> or \<open>destination\<close> is empty,
  \<open>handleRequestRide\<close> sets the error message and returns (no wait is started):
  \<open>isRequesting\<close>, \<open>driverFound\<close> and \<open>rideDetails\<close> keep their values.
\<close>

theorem handleRequestRide_invalid_frame:
  assumes "ui_pickupLocation a = [] \<or> ui_destination a = []"
  shows "handleRequestRide a =
           (a\<lparr>error := ''Please enter both pickup location and destination.''\<rparr>, False) \<and>
         isRequesting (fst (handleRequestRide a)) = isRequesting a \<and>
         driverFound (fst (handleRequestRide a)) = driverFound a \<and>
         rideDetails (fst (handleRequestRide a)) = rideDetails a"
  using assms by (simp add: handleRequestRide_def)

text \<open>A form with a destination and no pickup location, after an earlier ride was found.\<close>

theorem handleRequestRide_invalid_frame_witness:
  "ui_pickupLocation (handleRequestRide_resume
      \<lparr>ui_pickupLocation = [], ui_destination = ''B'', isRequesting = True,
       driverFound = False, rideDetails = None, error = []\<rparr> 5000) = [] \<and>
   error (fst (handleRequestRide (handleRequestRide_resume
      \<lparr>ui_pickupLocation = [], ui_destination = ''B'', isRequesting = True,
       driverFound = False, rideDetails = None, error = []\<rparr> 5000))) =
     ''Please enter both pickup location and destination.'' \<and>
   snd (handleRequestRide (handleRequestRide_resume
      \<lparr>ui_pickupLocation = [], ui_destination = ''B'', isRequesting = True,
       driverFound = False, rideDetails = None, error = []\<rparr> 5000)) = False \<and>
   isRequesting (fst (handleRequestRide (handleRequestRide_resume
      \<lparr>ui_pickupLocation = [], ui_destination = ''B'', isRequesting = True,
       driverFound = False, rideDetails = None, error = []\<rparr> 5000))) = False \<and>
   driverFound (fst (handleRequestRide (handleRequestRide_resume
      \<lparr>ui_pickupLocation = [], ui_destination = ''B'', isRequesting = True,
       driverFound = False, rideDetails = None, error = []\<rparr> 5000))) = True \<and>
   rideDetails (fst (handleRequestRide (handleRequestRide_resume
      \<lparr>ui_pickupLocation = [], ui_destination = ''B'', isRequesting = True,
       driverFound = False, rideDetails = None, error = []\<rparr> 5000))) \<noteq> None"
  using handleRequestRide_invalid_frame [of "handleRequestRide_resume
      \<lparr>ui_pickupLocation = [], ui_destination = ''B'', isRequesting = True,
       driverFound = False, rideDetails = None, error = []\<rparr> 5000"]
  by (simp add: handleRequestRide_resume_def)

end
